theory Spec2Isabelle
  imports Main "HOL-Library.Word"
begin

section \<open>The resource manager of \<open>src/resource.cc\<close>\<close>

text \<open>
  A shallow embedding of \<open>ResourceManagerImpl\<close>, its two pool templates
  \<open>ResourceRandom\<close> and \<open>ResourceTempSpace\<close>, and the singleton functions
  \<open>ResourceManager::Get\<close> and \<open>ResourceManager::Shutdown\<close>.

  Machine integers are words: \<open>size_t\<close> is 64 bits wide, \<open>uint32_t\<close> and \<open>int32_t\<close>
  are 32 bits wide (an \<open>int32_t\<close> is kept as its bit pattern and read with \<open>sint\<close>).
  A member whose name ends in an underscore in the source (\<open>ptr_\<close>, \<open>cpu_rand_\<close>) ends in
  a prime here, and \<open>id\<close> is \<open>id'\<close>.
  Native objects reached through pointers live in an explicit store; addresses are
  natural numbers and \<open>0\<close> is the null pointer.  \<open>LOG(FATAL)\<close> and a failed \<open>CHECK\<close>
  end the call with a diagnostic and are the \<open>Inl\<close> branch of every result.
\<close>

subsection \<open>Machine types and failures\<close>

type_synonym size_t = "64 word"
type_synonym uint32_t = "32 word"
type_synonym int32_t = "32 word"
type_synonym addr = nat
type_synonym VarHandle = nat

text \<open>
  The diagnostics written by the \<open>LOG(FATAL)\<close> and \<open>CHECK_EQ\<close> statements of the file:
  \<open>"Unknown supported type " << req.type\<close>, \<open>MXNET_GPU_NOT_ENABLED_ERROR\<close>, the failed
  comparison of \<open>CHECK_EQ(ctx.dev_mask(), gpu::kDevMask)\<close> and
  \<open>"Resource manager already shutdone"\<close>.
\<close>

datatype diagnostic =
    UnknownSupportedType int
  | GpuNotEnabled
  | CheckEqFailed int int
  | AlreadyShutdone

text \<open>
  A call that does not return: either a fatal log message, or an operation whose behaviour
  C++ leaves undefined (a remainder by zero, an index outside a vector).
\<close>

datatype failure =
    LogFatal diagnostic
  | Undefined string

subsection \<open>Value types declared in \<open>mxnet/base.h\<close> and \<open>mxnet/resource.h\<close>\<close>

text \<open>
  Modelled from the spec: the headers \<open>mxnet/base.h\<close>, \<open>mxnet/resource.h\<close> and
  \<open>mshadow\<close> are not among the sources.  A \<open>Context\<close> identifies a device class and an
  index within that class; \<open>dev_mask\<close> holds the value that \<open>ctx.dev_mask()\<close> returns,
  \<open>dev_id\<close> is the \<open>int32_t\<close> device index.  The host class is \<open>cpu::kDevMask\<close>, the
  accelerator class \<open>gpu::kDevMask\<close>.
\<close>

record Context =
  dev_mask :: int
  dev_id :: int32_t

definition cpu_kDevMask :: int where
  "cpu_kDevMask = 1"

definition gpu_kDevMask :: int where
  "gpu_kDevMask = 2"

definition Context_CPU :: Context where
  "Context_CPU = \<lparr>dev_mask = cpu_kDevMask, dev_id = 0\<rparr>"

text \<open>
  Modelled from the spec: a \<open>ResourceRequest\<close> carries an enumeration value; the
  enumerators are \<open>kRandom\<close> and \<open>kTempSpace\<close>.  The field holds the underlying integer,
  so that a value outside the two enumerators can be written down, as the \<open>default:\<close>
  labels of \<open>Request\<close> expect.
\<close>

record ResourceRequest =
  type :: int

definition kRandom :: int where
  "kRandom = 0"

definition kTempSpace :: int where
  "kTempSpace = 1"

text \<open>
  Modelled from the spec: a \<open>Resource\<close> is the handle given to callers: the request it
  answers, the dependency token \<open>var\<close> issued by the engine, the slot index \<open>id\<close> and the
  non-owning pointer \<open>ptr_\<close> to the native object.  The default constructor sets \<open>id\<close> to
  zero and leaves the other fields indeterminate, shown here as zero.
\<close>

record Resource =
  req :: ResourceRequest
  var :: VarHandle
  id' :: int32_t
  ptr' :: addr

definition Resource_default :: Resource where
  "Resource_default = \<lparr>req = \<lparr>type = 0\<rparr>, var = 0, id' = 0, ptr' = 0\<rparr>"

subsection \<open>The engine, the generators and the store\<close>

text \<open>
  Modelled from the spec: \<open>mshadow::Random\<close> and \<open>mshadow::TensorContainer\<close> are not
  among the sources.  A generator's observable state is the seed it was last seeded with
  and how many numbers have been drawn since; seeding puts it at the start of the stream
  of that seed.  A scratch buffer has no state the manager reads.
\<close>

datatype object =
    Random uint32_t nat
  | TensorContainer

text \<open>
  Modelled from the spec: the engine (\<open>mxnet/engine.h\<close>) and the process environment
  read by \<open>dmlc::GetEnv\<close> are not among the sources.  \<open>environ\<close> maps a variable name to
  its parsed value, \<open>next_var\<close> is the next dependency token \<open>NewVariable\<close> issues,
  \<open>deleted\<close> lists the tokens given back through \<open>DeleteVariable\<close>, \<open>heap\<close> is the store of
  native objects and \<open>next_addr\<close> the next address \<open>new\<close> hands out.
\<close>

record sys =
  environ :: "string \<rightharpoonup> 32 word"
  next_var :: VarHandle
  deleted :: "VarHandle list"
  heap :: "addr \<rightharpoonup> object"
  next_addr :: addr

definition GetEnv :: "sys \<Rightarrow> string \<Rightarrow> 32 word \<Rightarrow> 32 word" where
  "GetEnv w key default_value =
     (case environ w key of None \<Rightarrow> default_value | Some v \<Rightarrow> v)"

text \<open>\<open>new T(...)\<close>: a fresh address holding the constructed object.\<close>

definition new :: "object \<Rightarrow> sys \<Rightarrow> addr \<times> sys" where
  "new obj w =
     (next_addr w, w\<lparr>heap := (heap w)(next_addr w \<mapsto> obj), next_addr := Suc (next_addr w)\<rparr>)"

text \<open>
  Modelled from the spec: \<open>NewVariable\<close> issues a fresh dependency token;
  \<open>DeleteVariable\<close> runs the cleanup callback once the operations scheduled on the token
  are done and retires the token; \<open>PushSync\<close> runs the callback, ordered after the
  operations on the tokens it names.  In a sequential run nothing is pending, so both
  callbacks run at the call.
\<close>

definition NewVariable :: "sys \<Rightarrow> VarHandle \<times> sys" where
  "NewVariable w = (next_var w, w\<lparr>next_var := Suc (next_var w)\<rparr>)"

definition DeleteVariable :: "(sys \<Rightarrow> sys) \<Rightarrow> Context \<Rightarrow> VarHandle \<Rightarrow> sys \<Rightarrow> sys" where
  "DeleteVariable cleanup c v w = (let w1 = cleanup w in w1\<lparr>deleted := v # deleted w1\<rparr>)"

definition PushSync :: "(sys \<Rightarrow> sys) \<Rightarrow> Context \<Rightarrow> VarHandle list \<Rightarrow> VarHandle list \<Rightarrow> sys \<Rightarrow> sys" where
  "PushSync fn c const_vars mutable_vars w = fn w"

text \<open>\<open>delete r\<close>: the object at \<open>r\<close> leaves the store.\<close>

definition delete :: "addr \<Rightarrow> sys \<Rightarrow> sys" where
  "delete r w = w\<lparr>heap := (heap w)(r := None)\<rparr>"

text \<open>
  Modelled from the spec: \<open>mshadow::Random::Seed\<close> is not among the sources.
  \<open>r->Seed(seed)\<close> re-seeds the generator at \<open>r\<close>: its state afterwards is given by
  the seed alone.  (\<open>r->set_stream\<close>, called just before, does not change the numbers
  the generator produces.)
\<close>

definition Random_Seed :: "addr \<Rightarrow> uint32_t \<Rightarrow> sys \<Rightarrow> sys" where
  "Random_Seed r seed w = w\<lparr>heap := (heap w)(r \<mapsto> Random seed 0)\<rparr>"

subsection \<open>\<open>ResourceRandom\<close>: the generator of one device\<close>

definition kMaxNumGPUs :: size_t where
  "kMaxNumGPUs = 16"

definition kRandMagic :: uint32_t where
  "kRandMagic = 127"

record ResourceRandom =
  ctx :: Context
  prnd :: addr
  resource :: Resource

text \<open>
  The constructor.  \<open>ctx.dev_id + global_seed * kRandMagic\<close> adds an \<open>int32_t\<close> to a
  \<open>uint32_t\<close>: the sum is taken in \<open>uint32_t\<close>, where the index keeps its bit pattern.
  \<open>mshadow::SetDevice\<close>, called first by both pool constructors, selects the device
  on which the objects are created and changes nothing of the state kept here.
\<close>

definition ResourceRandom_new :: "Context \<Rightarrow> uint32_t \<Rightarrow> sys \<Rightarrow> ResourceRandom \<times> sys" where
  "ResourceRandom_new c global_seed w =
     (let (v, w1) = NewVariable w;
          (p, w2) = new (Random (dev_id c + global_seed * kRandMagic) 0) w1
      in (\<lparr>ctx = c, prnd = p,
           resource = Resource_default\<lparr>var := v, ptr' := p, req := \<lparr>type = kRandom\<rparr>\<rparr>\<rparr>, w2))"

definition ResourceRandom_delete :: "ResourceRandom \<Rightarrow> sys \<Rightarrow> sys" where
  "ResourceRandom_delete p w =
     (let r = prnd p in DeleteVariable (delete r) (ctx p) (var (resource p)) w)"

definition Seed :: "ResourceRandom \<Rightarrow> uint32_t \<Rightarrow> sys \<Rightarrow> sys" where
  "Seed p global_seed w =
     (let seed = dev_id (ctx p) + global_seed * kRandMagic;
          r = prnd p
      in PushSync (Random_Seed r seed) (ctx p) [] [var (resource p)] w)"

subsection \<open>\<open>ResourceTempSpace\<close>: the round-robin pool of scratch buffers\<close>

record ResourceTempSpace =
  ctx :: Context
  space :: "addr list"
  resource :: "Resource list"
  curr_ptr :: size_t

text \<open>\<open>std::vector::size()\<close>, a \<open>size_t\<close>.\<close>

definition size_of :: "'a list \<Rightarrow> size_t" where
  "size_of xs = of_nat (length xs)"

text \<open>
  One round of the constructor's loop, at index \<open>i\<close>: allocate the buffer, take a fresh
  token, and fill in slot \<open>i\<close> of both vectors.  \<open>static_cast<int32_t>(i)\<close> keeps the low
  32 bits of the index.
\<close>

definition ResourceTempSpace_init ::
  "nat \<Rightarrow> addr list \<times> Resource list \<times> sys \<Rightarrow> addr list \<times> Resource list \<times> sys" where
  "ResourceTempSpace_init i st =
     (case st of (sp, rs, w) \<Rightarrow>
        let (a, w1) = new TensorContainer w;
            sp1 = sp[i := a];
            (v, w2) = NewVariable w1;
            rs1 = rs[i := (rs ! i)\<lparr>var := v, id' := of_nat i, ptr' := sp1 ! i,
                                  req := \<lparr>type = kTempSpace\<rparr>\<rparr>]
        in (sp1, rs1, w2))"

text \<open>
  The constructor: both vectors are created with \<open>ncopy\<close> value-initialised elements
  (null pointers, default handles), the cursor starts at zero, and the loop runs over
  \<open>0 \<le> i < space.size()\<close>.
\<close>

definition ResourceTempSpace_new :: "Context \<Rightarrow> size_t \<Rightarrow> sys \<Rightarrow> ResourceTempSpace \<times> sys" where
  "ResourceTempSpace_new c ncopy w =
     (case fold ResourceTempSpace_init [0..<unat ncopy]
             (replicate (unat ncopy) 0, replicate (unat ncopy) Resource_default, w) of
        (sp, rs, w1) \<Rightarrow> (\<lparr>ctx = c, space = sp, resource = rs, curr_ptr = 0\<rparr>, w1))"

text \<open>The destructor: one \<open>DeleteVariable\<close> per buffer, releasing and deleting it.\<close>

definition ResourceTempSpace_delete :: "ResourceTempSpace \<Rightarrow> sys \<Rightarrow> sys" where
  "ResourceTempSpace_delete p w =
     fold (\<lambda>i w1. let r = space p ! i
                  in DeleteVariable (delete r) (ctx p) (var (resource p ! i)) w1)
          [0..<length (space p)] w"

text \<open>
  \<open>GetNext\<close>.  \<open>++curr_ptr\<close> stores the incremented value and yields it; above
  \<open>kMaxDigit\<close> the stored cursor is replaced by \<open>(ptr + 1) % space.size()\<close>; the handle
  returned is \<open>resource[ptr % space.size()]\<close>.  A remainder by zero (an empty pool) and an
  index outside \<open>resource\<close> are undefined in C++.
\<close>

definition kMaxDigit :: size_t where
  "kMaxDigit = (- 1) div 2"

definition GetNext :: "ResourceTempSpace \<Rightarrow> failure + Resource \<times> ResourceTempSpace" where
  "GetNext p =
     (let ptr = curr_ptr p + 1;
          p1 = p\<lparr>curr_ptr := ptr\<rparr>
      in if size_of (space p) = 0 then Inl (Undefined ''remainder by zero'')
         else
           let p2 = (if ptr > kMaxDigit
                     then p1\<lparr>curr_ptr := (ptr + 1) mod size_of (space p)\<rparr>
                     else p1);
               i = unat (ptr mod size_of (space p))
           in if i < length (resource p) then Inr (resource p ! i, p2)
              else Inl (Undefined ''index outside resource''))"

text \<open>\<open>n\<close> calls of \<open>GetNext\<close> one after the other, with the handles in call order.\<close>

fun GetNext_seq :: "nat \<Rightarrow> ResourceTempSpace \<Rightarrow> failure + Resource list \<times> ResourceTempSpace" where
  "GetNext_seq 0 p = Inr ([], p)"
| "GetNext_seq (Suc n) p =
     (case GetNext p of
        Inl e \<Rightarrow> Inl e
      | Inr (r, p1) \<Rightarrow>
          (case GetNext_seq n p1 of
             Inl e \<Rightarrow> Inl e
           | Inr (rs, p2) \<Rightarrow> Inr (r # rs, p2)))"

subsection \<open>The registry of accelerator pools\<close>

text \<open>
  Modelled from the spec: \<open>common/lazy_alloc_array.h\<close> is not among the sources.  A
  \<open>LazyAllocArray\<close> maps a device index to at most one element; \<open>Get\<close> returns the
  element of an index and creates it with the factory when it is absent, \<open>ForEach\<close>
  applies a function to every element that exists, \<open>Clear\<close> destroys them all.  The
  entries are kept in creation order; \<open>LazyAllocArray_put\<close> writes back an element that
  the caller changed through the pointer \<open>Get\<close> returned.
\<close>

type_synonym 'a LazyAllocArray = "(int32_t \<times> 'a) list"

definition LazyAllocArray_Get ::
  "int32_t \<Rightarrow> (sys \<Rightarrow> 'a \<times> sys) \<Rightarrow> 'a LazyAllocArray \<Rightarrow> sys \<Rightarrow> 'a \<times> 'a LazyAllocArray \<times> sys" where
  "LazyAllocArray_Get i creator arr w =
     (case map_of arr i of
        Some e \<Rightarrow> (e, arr, w)
      | None \<Rightarrow> (case creator w of (e, w1) \<Rightarrow> (e, arr @ [(i, e)], w1)))"

definition LazyAllocArray_put :: "int32_t \<Rightarrow> 'a \<Rightarrow> 'a LazyAllocArray \<Rightarrow> 'a LazyAllocArray" where
  "LazyAllocArray_put i e arr = map (\<lambda>(k, v). if k = i then (k, e) else (k, v)) arr"

definition ForEach :: "(int32_t \<Rightarrow> 'a \<Rightarrow> sys \<Rightarrow> sys) \<Rightarrow> 'a LazyAllocArray \<Rightarrow> sys \<Rightarrow> sys" where
  "ForEach fn arr w = fold (\<lambda>(i, e) w1. fn i e w1) arr w"

definition Clear :: "('a \<Rightarrow> sys \<Rightarrow> sys) \<Rightarrow> 'a LazyAllocArray \<Rightarrow> sys \<Rightarrow> sys" where
  "Clear destroy arr w = fold (\<lambda>(i, e) w1. destroy e w1) arr w"

subsection \<open>\<open>ResourceManagerImpl\<close>\<close>

text \<open>
  The two pools of the host are owned through \<open>unique_ptr\<close>s that are set by the
  constructor and reset only by the destructor, so a live manager holds them by value.
  \<open>engine_ref_\<close> records whether the shared reference to the engine is held.  The
  accelerator registries exist in a build with \<open>MXNET_USE_CUDA\<close> only; the flag is the
  first argument \<open>cuda\<close> of every function that the preprocessor specialises.
\<close>

record ResourceManagerImpl =
  cpu_temp_space_copy' :: "32 word"
  gpu_temp_space_copy' :: "32 word"
  engine_ref' :: bool
  global_seed' :: uint32_t
  cpu_rand' :: ResourceRandom
  cpu_space' :: ResourceTempSpace
  gpu_rand' :: "ResourceRandom LazyAllocArray"
  gpu_space' :: "ResourceTempSpace LazyAllocArray"

text \<open>
  The constructor.  The copy counts are \<open>int\<close>s; passing one as the \<open>size_t ncopy\<close> of
  the pool's constructor sign-extends it.
\<close>

definition ResourceManagerImpl_new :: "sys \<Rightarrow> ResourceManagerImpl \<times> sys" where
  "ResourceManagerImpl_new w =
     (let cpu_copy = GetEnv w ''MXNET_CPU_TEMP_COPY'' 16;
          gpu_copy = GetEnv w ''MXNET_GPU_TEMP_COPY'' 4;
          (r, w1) = ResourceRandom_new Context_CPU 0 w;
          (s, w2) = ResourceTempSpace_new Context_CPU (scast cpu_copy) w1
      in (\<lparr>cpu_temp_space_copy' = cpu_copy, gpu_temp_space_copy' = gpu_copy,
           engine_ref' = True, global_seed' = 0, cpu_rand' = r, cpu_space' = s,
           gpu_rand' = [], gpu_space' = []\<rparr>, w2))"

definition ResourceManagerImpl_delete :: "bool \<Rightarrow> ResourceManagerImpl \<Rightarrow> sys \<Rightarrow> sys" where
  "ResourceManagerImpl_delete cuda m w =
     (let w1 = ResourceRandom_delete (cpu_rand' m) w;
          w2 = ResourceTempSpace_delete (cpu_space' m) w1
      in if cuda
         then Clear ResourceTempSpace_delete (gpu_space' m)
                (Clear ResourceRandom_delete (gpu_rand' m) w2)
         else w2)"

text \<open>
  The \<open>if\<close>/\<open>else\<close> statement of \<open>Request\<close>.  Each path through it either returns a
  handle with the changed manager, or does not return; \<open>None\<close> stands for control leaving
  the statement at its end, where \<open>Resource ret; return ret;\<close> follows.
\<close>

definition Request_switch ::
  "bool \<Rightarrow> Context \<Rightarrow> ResourceRequest \<Rightarrow> ResourceManagerImpl \<Rightarrow> sys \<Rightarrow>
     (failure + Resource \<times> ResourceManagerImpl \<times> sys) option" where
  "Request_switch cuda c rq m w =
     (if dev_mask c = cpu_kDevMask then
        (if type rq = kRandom then
           Some (Inr (ResourceRandom.resource (cpu_rand' m), m, w))
         else if type rq = kTempSpace then
           Some (case GetNext (cpu_space' m) of
                   Inl e \<Rightarrow> Inl e
                 | Inr (r, p) \<Rightarrow> Inr (r, m\<lparr>cpu_space' := p\<rparr>, w))
         else Some (Inl (LogFatal (UnknownSupportedType (type rq)))))
      else if dev_mask c \<noteq> gpu_kDevMask then
        Some (Inl (LogFatal (CheckEqFailed (dev_mask c) gpu_kDevMask)))
      else if cuda then
        (if type rq = kRandom then
           (case LazyAllocArray_Get (dev_id c) (ResourceRandom_new c (global_seed' m))
                   (gpu_rand' m) w of
              (e, arr, w1) \<Rightarrow>
                Some (Inr (ResourceRandom.resource e, m\<lparr>gpu_rand' := arr\<rparr>, w1)))
         else if type rq = kTempSpace then
           (case LazyAllocArray_Get (dev_id c)
                   (ResourceTempSpace_new c (scast (gpu_temp_space_copy' m)))
                   (gpu_space' m) w of
              (e, arr, w1) \<Rightarrow>
                Some (case GetNext e of
                        Inl x \<Rightarrow> Inl x
                      | Inr (r, p) \<Rightarrow>
                          Inr (r, m\<lparr>gpu_space' := LazyAllocArray_put (dev_id c) p arr\<rparr>, w1)))
         else Some (Inl (LogFatal (UnknownSupportedType (type rq)))))
      else Some (Inl (LogFatal GpuNotEnabled)))"

definition Request ::
  "bool \<Rightarrow> Context \<Rightarrow> ResourceRequest \<Rightarrow> ResourceManagerImpl \<Rightarrow> sys \<Rightarrow>
     failure + Resource \<times> ResourceManagerImpl \<times> sys" where
  "Request cuda c rq m w =
     (case Request_switch cuda c rq m w of
        Some result \<Rightarrow> result
      | None \<Rightarrow> Inr (Resource_default, m, w))"

definition SeedRandom ::
  "bool \<Rightarrow> uint32_t \<Rightarrow> ResourceManagerImpl \<Rightarrow> sys \<Rightarrow> ResourceManagerImpl \<times> sys" where
  "SeedRandom cuda seed m w =
     (let m1 = m\<lparr>global_seed' := seed\<rparr>;
          w1 = Seed (cpu_rand' m1) (global_seed' m1) w
      in (m1, if cuda then ForEach (\<lambda>i p. Seed p seed) (gpu_rand' m1) w1 else w1))"

subsection \<open>The singleton: \<open>ResourceManager::Get\<close> and \<open>ResourceManager::Shutdown\<close>\<close>

text \<open>
  The two file-level statics and the rest of the process.  \<open>instance_ptr\<close> owns the
  manager it points to; \<open>None\<close> is the null pointer.
\<close>

record process =
  instance_ptr :: "ResourceManagerImpl option"
  rm_shutdown :: bool
  world :: sys

text \<open>
  \<open>Get\<close> returns \<open>instance_ptr\<close>: on success the pointer returned is the
  \<open>instance_ptr\<close> of the resulting state.
\<close>

definition Get :: "process \<Rightarrow> failure + process" where
  "Get s =
     (case instance_ptr s of
        None \<Rightarrow>
          if rm_shutdown s then Inl (LogFatal AlreadyShutdone)
          else (case ResourceManagerImpl_new (world s) of
                  (m, w) \<Rightarrow> Inr (s\<lparr>instance_ptr := Some m, world := w\<rparr>))
      | Some m \<Rightarrow> Inr s)"

definition Shutdown :: "bool \<Rightarrow> process \<Rightarrow> process" where
  "Shutdown cuda s =
     (case instance_ptr s of
        Some m \<Rightarrow>
          s\<lparr>world := ResourceManagerImpl_delete cuda m (world s),
            instance_ptr := None, rm_shutdown := True\<rparr>
      | None \<Rightarrow> s)"

text \<open>The state of a process at start-up, before any call, with environment \<open>env\<close>.\<close>

definition process_start :: "(string \<rightharpoonup> 32 word) \<Rightarrow> process" where
  "process_start env =
     \<lparr>instance_ptr = None, rm_shutdown = False,
      world = \<lparr>environ = env, next_var = 1, deleted = [], heap = Map.empty, next_addr = 1\<rparr>\<rparr>"

subsection \<open>Sequences of calls\<close>

text \<open>
  What a client does, one call after the other: \<open>ResourceManager::Get()\<close>,
  \<open>ResourceManager::Shutdown()\<close>, \<open>ResourceManager::Get()->Request(ctx, req)\<close> and
  \<open>ResourceManager::Get()->SeedRandom(seed)\<close>.  A run stops at the first call that does
  not return, and lists the handles that the \<open>Request\<close> calls returned.
\<close>

datatype call =
    CallGet
  | CallShutdown
  | CallRequest Context ResourceRequest
  | CallSeedRandom uint32_t

fun exec :: "bool \<Rightarrow> call \<Rightarrow> process \<Rightarrow> failure + Resource list \<times> process" where
  "exec cuda CallGet s = (case Get s of Inl e \<Rightarrow> Inl e | Inr s1 \<Rightarrow> Inr ([], s1))"
| "exec cuda CallShutdown s = Inr ([], Shutdown cuda s)"
| "exec cuda (CallRequest c rq) s =
     (case Get s of
        Inl e \<Rightarrow> Inl e
      | Inr s1 \<Rightarrow>
          (case instance_ptr s1 of
             None \<Rightarrow> Inl (Undefined ''null manager'')
           | Some m \<Rightarrow>
               (case Request cuda c rq m (world s1) of
                  Inl e \<Rightarrow> Inl e
                | Inr (r, m1, w1) \<Rightarrow> Inr ([r], s1\<lparr>instance_ptr := Some m1, world := w1\<rparr>))))"
| "exec cuda (CallSeedRandom seed) s =
     (case Get s of
        Inl e \<Rightarrow> Inl e
      | Inr s1 \<Rightarrow>
          (case instance_ptr s1 of
             None \<Rightarrow> Inl (Undefined ''null manager'')
           | Some m \<Rightarrow>
               (case SeedRandom cuda seed m (world s1) of
                  (m1, w1) \<Rightarrow> Inr ([], s1\<lparr>instance_ptr := Some m1, world := w1\<rparr>))))"

fun run :: "bool \<Rightarrow> call list \<Rightarrow> process \<Rightarrow> failure + Resource list \<times> process" where
  "run cuda [] s = Inr ([], s)"
| "run cuda (c # cs) s =
     (case exec cuda c s of
        Inl e \<Rightarrow> Inl e
      | Inr (rs, s1) \<Rightarrow>
          (case run cuda cs s1 of
             Inl e \<Rightarrow> Inl e
           | Inr (rs1, s2) \<Rightarrow> Inr (rs @ rs1, s2)))"

subsection \<open>Notions used in the statements and invariants used in the proofs\<close>

text \<open>
  The value that one call of \<open>GetNext\<close> leaves in \<open>curr_ptr\<close>: the incremented cursor,
  or \<open>(ptr + 1) % space.size()\<close> when the incremented cursor is above \<open>kMaxDigit\<close>.
\<close>

definition next_cursor :: "ResourceTempSpace \<Rightarrow> size_t" where
  "next_cursor q =
     (if kMaxDigit < curr_ptr q + 1 then (curr_ptr q + 1 + 1) mod size_of (space q)
      else curr_ptr q + 1)"

text \<open>
  The invariant of the cursor of a pool \<open>q\<close> that started as \<open>p\<close>: the vectors are those
  of \<open>p\<close>, and the cursor is at most \<open>kMaxDigit\<close> or an index of the pool.
\<close>

definition cursor_inv :: "ResourceTempSpace \<Rightarrow> ResourceTempSpace \<Rightarrow> bool" where
  "cursor_inv p q \<longleftrightarrow>
     space q = space p \<and> resource q = resource p \<and>
     unat (curr_ptr q) \<le> max (unat kMaxDigit) (length (space p) - 1)"






section \<open>Properties\<close>

subsection \<open>The round-robin cursor below the overflow threshold\<close>

lemma kMaxDigit_unat: "unat kMaxDigit = 2 ^ 63 - 1"
  by (simp add: kMaxDigit_def)

lemma size_of_unat: "length xs < 2 ^ 64 \<Longrightarrow> unat (size_of xs) = length xs"
  unfolding size_of_def by (simp add: unat_of_nat)

lemma GetNext_below:
  assumes "0 < length (space p)" "length (space p) < 2 ^ 64"
    "length (resource p) = length (space p)" "unat (curr_ptr p) < unat kMaxDigit"
  shows "GetNext p = Inr (resource p ! (Suc (unat (curr_ptr p)) mod length (space p)),
                          p\<lparr>curr_ptr := curr_ptr p + 1\<rparr>)"
proof -
  have n: "unat (size_of (space p)) = length (space p)"
    using assms(2) by (rule size_of_unat)
  have nz: "size_of (space p) \<noteq> 0"
    using n assms(1) by (metis less_numeral_extra(3) unat_0)
  have inc: "unat (curr_ptr p + 1) = Suc (unat (curr_ptr p))"
    using assms(4) by (simp add: unat_word_ariths kMaxDigit_unat)
  have le: "\<not> curr_ptr p + 1 > kMaxDigit"
    using assms(4) inc by (simp add: word_less_nat_alt)
  have idx: "unat ((curr_ptr p + 1) mod size_of (space p)) = Suc (unat (curr_ptr p)) mod length (space p)"
    by (simp add: unat_mod n inc)
  have "Suc (unat (curr_ptr p)) mod length (space p) < length (resource p)"
    using assms(1,3) by simp
  then show ?thesis
    using nz le idx by (simp add: GetNext_def Let_def)
qed


lemma GetNext_seq_below:
  assumes "0 < length (space p)" "length (space p) < 2 ^ 64"
    "length (resource p) = length (space p)" "unat (curr_ptr p) + k \<le> unat kMaxDigit"
  shows "GetNext_seq k p =
     Inr (map (\<lambda>i. resource p ! ((unat (curr_ptr p) + i) mod length (space p))) [1..<Suc k],
          p\<lparr>curr_ptr := curr_ptr p + of_nat k\<rparr>)"
  using assms
proof (induction k arbitrary: p)
  case 0
  then show ?case by simp
next
  case (Suc k)
  let ?q = "p\<lparr>curr_ptr := curr_ptr p + 1\<rparr>"
  have lt: "unat (curr_ptr p) < unat kMaxDigit"
    using Suc.prems(4) by simp
  have step: "GetNext p = Inr (resource p ! (Suc (unat (curr_ptr p)) mod length (space p)), ?q)"
    using Suc.prems(1-3) lt by (rule GetNext_below)
  have inc: "unat (curr_ptr ?q) = Suc (unat (curr_ptr p))"
    using lt by (simp add: unat_word_ariths kMaxDigit_unat)
  have rest: "GetNext_seq k ?q =
     Inr (map (\<lambda>i. resource ?q ! ((unat (curr_ptr ?q) + i) mod length (space ?q))) [1..<Suc k],
          ?q\<lparr>curr_ptr := curr_ptr ?q + of_nat k\<rparr>)"
    using Suc.prems inc by (intro Suc.IH) simp_all
  have shift: "map (\<lambda>i. resource p ! ((unat (curr_ptr p) + i) mod length (space p))) [1..<Suc (Suc k)] =
      resource p ! (Suc (unat (curr_ptr p)) mod length (space p)) #
      map (\<lambda>i. resource p ! ((Suc (unat (curr_ptr p)) + i) mod length (space p))) [1..<Suc k]"
  proof -
    have "[1..<Suc (Suc k)] = 1 # map Suc [1..<Suc k]"
      by (metis One_nat_def map_Suc_upt upt_conv_Cons zero_less_Suc Suc_less_eq)
    then show ?thesis by (simp add: comp_def)
  qed
  show ?case
    using step rest inc shift by (simp add: add.assoc)
qed


lemma ResourceTempSpace_init_fold:
  assumes "k \<le> n" "length sp = n" "length rs = n"
  shows "case fold ResourceTempSpace_init [0..<k] (sp, rs, w) of
           (sp1, rs1, w1) \<Rightarrow>
             length sp1 = n \<and> length rs1 = n \<and>
             (\<forall>j<k. id' (rs1 ! j) = of_nat j \<and> ptr' (rs1 ! j) = sp1 ! j \<and>
                    req (rs1 ! j) = \<lparr>type = kTempSpace\<rparr>)"
  using assms
proof (induction k)
  case 0
  then show ?case by simp
next
  case (Suc k)
  obtain sp1 rs1 w1 where f: "fold ResourceTempSpace_init [0..<k] (sp, rs, w) = (sp1, rs1, w1)"
    by (metis prod_cases3)
  have ih: "length sp1 = n" "length rs1 = n"
    "\<forall>j<k. id' (rs1 ! j) = of_nat j \<and> ptr' (rs1 ! j) = sp1 ! j \<and> req (rs1 ! j) = \<lparr>type = kTempSpace\<rparr>"
    using Suc.IH Suc.prems f by simp_all
  have kn: "k < n" using Suc.prems(1) by simp
  have step: "fold ResourceTempSpace_init [0..<Suc k] (sp, rs, w) =
      ResourceTempSpace_init k (sp1, rs1, w1)"
    by (simp add: f)
  show ?case
    unfolding step using ih kn
    by (simp add: ResourceTempSpace_init_def new_def NewVariable_def Let_def
        nth_list_update less_Suc_eq)
qed

lemma ResourceTempSpace_new_props:
  assumes "ResourceTempSpace_new c ncopy w = (p, w1)"
  shows "length (space p) = unat ncopy" "length (resource p) = unat ncopy" "curr_ptr p = 0"
    "ResourceTempSpace.ctx p = c"
    "\<And>j. j < unat ncopy \<Longrightarrow> id' (resource p ! j) = of_nat j"
    "\<And>j. j < unat ncopy \<Longrightarrow> ptr' (resource p ! j) = space p ! j"
    "\<And>j. j < unat ncopy \<Longrightarrow> req (resource p ! j) = \<lparr>type = kTempSpace\<rparr>"
proof -
  obtain sp rs w2 where f: "fold ResourceTempSpace_init [0..<unat ncopy]
      (replicate (unat ncopy) 0, replicate (unat ncopy) Resource_default, w) = (sp, rs, w2)"
    by (metis prod_cases3)
  have p: "p = \<lparr>ctx = c, space = sp, resource = rs, curr_ptr = 0\<rparr>"
    using assms by (simp add: ResourceTempSpace_new_def f)
  have inv: "length sp = unat ncopy \<and> length rs = unat ncopy \<and>
      (\<forall>j<unat ncopy. id' (rs ! j) = of_nat j \<and> ptr' (rs ! j) = sp ! j \<and>
          req (rs ! j) = \<lparr>type = kTempSpace\<rparr>)"
    using ResourceTempSpace_init_fold [of "unat ncopy" "unat ncopy"
        "replicate (unat ncopy) 0" "replicate (unat ncopy) Resource_default" w]
    by (simp add: f)
  show "length (space p) = unat ncopy" "length (resource p) = unat ncopy" "curr_ptr p = 0"
    "ResourceTempSpace.ctx p = c"
    using p inv by simp_all
  show "\<And>j. j < unat ncopy \<Longrightarrow> id' (resource p ! j) = of_nat j"
    "\<And>j. j < unat ncopy \<Longrightarrow> ptr' (resource p ! j) = space p ! j"
    "\<And>j. j < unat ncopy \<Longrightarrow> req (resource p ! j) = \<lparr>type = kTempSpace\<rparr>"
    using p inv by simp_all
qed

lemma unat_size_t_bound: "unat (n :: size_t) < 2 ^ 64"
  using unsigned_less [of n, where ?'a = nat] by simp

lemma pool_round_robin:
  assumes "ResourceTempSpace_new c ncopy w = (p, w1)" "0 < unat ncopy" "k \<le> unat kMaxDigit"
  shows "GetNext_seq k p =
           Inr (map (\<lambda>i. resource p ! (i mod unat ncopy)) [1..<Suc k], p\<lparr>curr_ptr := of_nat k\<rparr>)"
    and "map (\<lambda>i. id' (resource p ! (i mod unat ncopy))) [1..<Suc k] =
           map (\<lambda>i. of_nat (i mod unat ncopy)) [1..<Suc k]"
proof -
  note props = ResourceTempSpace_new_props [OF assms(1)]
  have "GetNext_seq k p =
     Inr (map (\<lambda>i. resource p ! ((unat (curr_ptr p) + i) mod length (space p))) [1..<Suc k],
          p\<lparr>curr_ptr := curr_ptr p + of_nat k\<rparr>)"
    using assms(2,3) props(1-3) unat_size_t_bound [of ncopy]
    by (intro GetNext_seq_below) simp_all
  then show "GetNext_seq k p =
           Inr (map (\<lambda>i. resource p ! (i mod unat ncopy)) [1..<Suc k], p\<lparr>curr_ptr := of_nat k\<rparr>)"
    using props(1,3) by simp
  show "map (\<lambda>i. id' (resource p ! (i mod unat ncopy))) [1..<Suc k] =
           map (\<lambda>i. of_nat (i mod unat ncopy)) [1..<Suc k]"
    using assms(2) props(5) by simp
qed


lemma kinds_distinct: "kRandom \<noteq> kTempSpace" "kTempSpace \<noteq> kRandom"
  by (simp_all add: kRandom_def kTempSpace_def)

lemma masks_distinct: "cpu_kDevMask \<noteq> gpu_kDevMask" "gpu_kDevMask \<noteq> cpu_kDevMask"
  by (simp_all add: cpu_kDevMask_def gpu_kDevMask_def)

lemma Get_live: "instance_ptr s = Some m \<Longrightarrow> Get s = Inr s"
  by (simp add: Get_def)

lemma Request_cpu_TempSpace:
  assumes "dev_mask c = cpu_kDevMask" "type rq = kTempSpace"
  shows "Request cuda c rq m w =
     (case GetNext (cpu_space' m) of
        Inl e \<Rightarrow> Inl e
      | Inr (r, p) \<Rightarrow> Inr (r, m\<lparr>cpu_space' := p\<rparr>, w))"
  using assms by (simp add: Request_def Request_switch_def kinds_distinct)

lemma run_TempSpace:
  assumes "dev_mask c = cpu_kDevMask" "type rq = kTempSpace" "instance_ptr s = Some m"
  shows "run cuda (replicate k (CallRequest c rq)) s =
     (case GetNext_seq k (cpu_space' m) of
        Inl e \<Rightarrow> Inl e
      | Inr (rs, p) \<Rightarrow> Inr (rs, s\<lparr>instance_ptr := Some (m\<lparr>cpu_space' := p\<rparr>)\<rparr>))"
  using assms(3)
proof (induction k arbitrary: s m)
  case 0
  then show ?case by simp
next
  case (Suc k)
  show ?case
  proof (cases "GetNext (cpu_space' m)")
    case (Inl e)
    then show ?thesis
      using Suc.prems by (simp add: Get_live Request_cpu_TempSpace [OF assms(1,2)])
  next
    case (Inr a)
    obtain r p where a: "a = (r, p)" by (cases a)
    let ?s = "s\<lparr>instance_ptr := Some (m\<lparr>cpu_space' := p\<rparr>)\<rparr>"
    have e: "exec cuda (CallRequest c rq) s = Inr ([r], ?s)"
      using Suc.prems Inr a by (simp add: Get_live Request_cpu_TempSpace [OF assms(1,2)])
    have ih: "run cuda (replicate k (CallRequest c rq)) ?s =
     (case GetNext_seq k (cpu_space' (m\<lparr>cpu_space' := p\<rparr>)) of
        Inl e \<Rightarrow> Inl e
      | Inr (rs, q) \<Rightarrow> Inr (rs, ?s\<lparr>instance_ptr := Some (m\<lparr>cpu_space' := p, cpu_space' := q\<rparr>)\<rparr>))"
      by (rule Suc.IH) simp
    show ?thesis
      using e ih Inr a by (simp split: sum.splits prod.splits)
  qed
qed

lemma Get_start:
  assumes "ResourceManagerImpl_new (world (process_start env)) = (m, w)"
  shows "Get (process_start env) = Inr ((process_start env)\<lparr>instance_ptr := Some m, world := w\<rparr>)"
  using assms by (simp add: Get_def process_start_def)

lemma ResourceManagerImpl_new_cpu_space:
  assumes "ResourceManagerImpl_new w = (m, w')"
  shows "\<exists>w1 w2. ResourceTempSpace_new Context_CPU (scast (GetEnv w ''MXNET_CPU_TEMP_COPY'' 16)) w1
            = (cpu_space' m, w2)"
  using assms
  by (fastforce simp: ResourceManagerImpl_new_def Let_def split: prod.splits)

lemma host_round_robin:
  assumes "dev_mask c = cpu_kDevMask" "type rq = kTempSpace"
    "GetEnv (world (process_start env)) ''MXNET_CPU_TEMP_COPY'' 16 = n"
    "0 < unat (scast n :: size_t)" "k \<le> unat kMaxDigit"
  shows "\<exists>rs s. run cuda (CallGet # replicate k (CallRequest c rq)) (process_start env) = Inr (rs, s) \<and>
            map id' rs = map (\<lambda>i. of_nat (i mod unat (scast n :: size_t))) [1..<Suc k]"
proof -
  obtain m w where mw: "ResourceManagerImpl_new (world (process_start env)) = (m, w)"
    by (cases "ResourceManagerImpl_new (world (process_start env))")
  let ?s = "(process_start env)\<lparr>instance_ptr := Some m, world := w\<rparr>"
  obtain w1 w2 where p: "ResourceTempSpace_new Context_CPU (scast n) w1 = (cpu_space' m, w2)"
    using ResourceManagerImpl_new_cpu_space [OF mw] assms(3) by auto
  note rr = pool_round_robin [OF p assms(4,5)]
  have "run cuda (replicate k (CallRequest c rq)) ?s =
      Inr (map (\<lambda>i. resource (cpu_space' m) ! (i mod unat (scast n :: size_t))) [1..<Suc k],
           ?s\<lparr>instance_ptr := Some (m\<lparr>cpu_space' := (cpu_space' m)\<lparr>curr_ptr := of_nat k\<rparr>\<rparr>)\<rparr>)"
    using run_TempSpace [OF assms(1,2), of ?s m cuda k] rr(1) by simp
  then show ?thesis
    using Get_start [OF mw] rr(2) by (simp add: comp_def)
qed

text \<open>
  Claim C1.  A pool built by the constructor with \<open>N > 1\<close> buffers hands out its
  handles in the cycle \<open>1, 2, \<dots>, N - 1, 0, 1, \<dots>\<close>: as long as the cursor stays at or
  below \<open>kMaxDigit\<close>, \<open>k\<close> calls of \<open>GetNext\<close> in a row succeed, the \<open>i\<close>-th of them
  returns \<open>resource[i mod N]\<close>, and the \<open>id\<close> of that handle is \<open>i mod N\<close>.  The same
  holds end to end: after \<open>ResourceManager::Get()\<close> in a fresh process whose host pool
  is configured with \<open>N > 1\<close> copies, \<open>j\<close> calls \<open>Request(ctx, req)\<close> with a host context
  and kind \<open>kTempSpace\<close> return the handles with the ids \<open>1 mod N, \<dots>, j mod N\<close>.  The
  instances of the claim, four buffers and six calls, and the default of sixteen copies
  and twenty calls, follow below.
\<close>

theorem GetNext_round_robin:
  "(ResourceTempSpace_new c ncopy w = (p, w1) \<and> 1 < unat ncopy \<and> k \<le> unat kMaxDigit \<longrightarrow>
      GetNext_seq k p =
        Inr (map (\<lambda>i. resource p ! (i mod unat ncopy)) [1..<Suc k], p\<lparr>curr_ptr := of_nat k\<rparr>) \<and>
      map (\<lambda>i. id' (resource p ! (i mod unat ncopy))) [1..<Suc k] =
        map (\<lambda>i. of_nat (i mod unat ncopy)) [1..<Suc k]) \<and>
   (dev_mask hc = cpu_kDevMask \<and> type rq = kTempSpace \<and>
    GetEnv (world (process_start env)) ''MXNET_CPU_TEMP_COPY'' 16 = n \<and>
    1 < unat (scast n :: size_t) \<and> j \<le> unat kMaxDigit \<longrightarrow>
      (\<exists>rs s. run cuda (CallGet # replicate j (CallRequest hc rq)) (process_start env) = Inr (rs, s) \<and>
         map id' rs = map (\<lambda>i. of_nat (i mod unat (scast n :: size_t))) [1..<Suc j]))"
proof -
  have pool: "GetNext_seq k p =
        Inr (map (\<lambda>i. resource p ! (i mod unat ncopy)) [1..<Suc k], p\<lparr>curr_ptr := of_nat k\<rparr>) \<and>
      map (\<lambda>i. id' (resource p ! (i mod unat ncopy))) [1..<Suc k] =
        map (\<lambda>i. of_nat (i mod unat ncopy)) [1..<Suc k]"
    if a: "ResourceTempSpace_new c ncopy w = (p, w1)" "1 < unat ncopy" "k \<le> unat kMaxDigit"
  proof -
    have pos: "0 < unat ncopy" using a(2) by simp
    show ?thesis
      using pool_round_robin [OF a(1) pos a(3)] by simp
  qed
  have host: "\<exists>rs s. run cuda (CallGet # replicate j (CallRequest hc rq)) (process_start env) = Inr (rs, s) \<and>
         map id' rs = map (\<lambda>i. of_nat (i mod unat (scast n :: size_t))) [1..<Suc j]"
    if b: "dev_mask hc = cpu_kDevMask" "type rq = kTempSpace"
      "GetEnv (world (process_start env)) ''MXNET_CPU_TEMP_COPY'' 16 = n"
      "1 < unat (scast n :: size_t)" "j \<le> unat kMaxDigit"
  proof -
    have pos: "0 < unat (scast n :: size_t)" using b(4) by simp
    show ?thesis
      by (rule host_round_robin [OF b(1-3) pos b(5)])
  qed
  show ?thesis
    using pool host by blast
qed

theorem GetNext_round_robin_witness:
  "1 < unat (4 :: size_t) \<and> (6 :: nat) \<le> unat kMaxDigit \<and>
   map id' (fst (projr (GetNext_seq 6
       (fst (ResourceTempSpace_new Context_CPU 4 (world (process_start Map.empty))))))) =
     [1, 2, 3, 0, 1, 2] \<and>
   dev_mask Context_CPU = cpu_kDevMask \<and> type \<lparr>type = kTempSpace\<rparr> = kTempSpace \<and>
   GetEnv (world (process_start Map.empty)) ''MXNET_CPU_TEMP_COPY'' 16 = 16 \<and>
   1 < unat (scast (16 :: 32 word) :: size_t) \<and> (20 :: nat) \<le> unat kMaxDigit \<and>
   map id' (fst (projr (run False
       (CallGet # replicate 20 (CallRequest Context_CPU \<lparr>type = kTempSpace\<rparr>))
       (process_start Map.empty)))) =
     [1, 2, 3, 4, 5, 6, 7, 8, 9, 10, 11, 12, 13, 14, 15, 0, 1, 2, 3, 4]"
proof -
  let ?w = "world (process_start Map.empty)"
  let ?p = "fst (ResourceTempSpace_new Context_CPU 4 ?w)"
  let ?w1 = "snd (ResourceTempSpace_new Context_CPU 4 ?w)"
  have h1: "1 < unat (4 :: size_t)" by simp
  have h2: "(6 :: nat) \<le> unat kMaxDigit" by (simp add: kMaxDigit_unat)
  have h3: "dev_mask Context_CPU = cpu_kDevMask" by (simp add: Context_CPU_def)
  have h4: "GetEnv ?w ''MXNET_CPU_TEMP_COPY'' 16 = 16"
    by (simp add: GetEnv_def process_start_def)
  have h5: "1 < unat (scast (16 :: 32 word) :: size_t)" by simp
  have h6: "(20 :: nat) \<le> unat kMaxDigit" by (simp add: kMaxDigit_unat)
  note t = GetNext_round_robin [of Context_CPU 4 ?w ?p ?w1 6 Context_CPU
      "\<lparr>type = kTempSpace\<rparr>" Map.empty 16 20 False]
  have pool: "map id' (fst (projr (GetNext_seq 6 ?p))) = [1, 2, 3, 0, 1, 2]"
  proof -
    have "map id' (fst (projr (GetNext_seq 6 ?p))) =
        map (\<lambda>i. id' (resource ?p ! (i mod unat (4 :: size_t)))) [1..<Suc 6]"
      using t h1 h2 by (simp add: comp_def)
    also have "\<dots> = map (\<lambda>i. of_nat (i mod unat (4 :: size_t))) [1..<Suc 6]"
      using t h1 h2 by simp
    also have "\<dots> = [1, 2, 3, 0, 1, 2]"
      by (simp add: upt_rec)
    finally show ?thesis .
  qed
  have host: "map id' (fst (projr (run False
       (CallGet # replicate 20 (CallRequest Context_CPU \<lparr>type = kTempSpace\<rparr>))
       (process_start Map.empty)))) =
     [1, 2, 3, 4, 5, 6, 7, 8, 9, 10, 11, 12, 13, 14, 15, 0, 1, 2, 3, 4]"
  proof -
    obtain rs s where r: "run False
       (CallGet # replicate 20 (CallRequest Context_CPU \<lparr>type = kTempSpace\<rparr>))
       (process_start Map.empty) = Inr (rs, s)"
      and m: "map id' rs = map (\<lambda>i. of_nat (i mod unat (scast (16 :: 32 word) :: size_t))) [1..<Suc 20]"
      using t h3 h4 h5 h6 by auto
    have "map (\<lambda>i. of_nat (i mod unat (scast (16 :: 32 word) :: size_t))) [1..<Suc 20] =
        [1, 2, 3, 4, 5, 6, 7, 8, 9, 10, 11, 12, 13, 14, 15, 0, 1, 2, 3, 4 :: 32 word]"
      by (simp add: upt_rec)
    then show ?thesis using r m by simp
  qed
  show ?thesis using h1 h2 h3 h4 h5 h6 pool host by simp
qed

subsection \<open>The cursor invariant\<close>

lemma GetNext_step:
  assumes "0 < length (space q)" "length (space q) < 2 ^ 64"
    "length (resource q) = length (space q)"
    "unat (curr_ptr q) \<le> max (unat kMaxDigit) (length (space q) - 1)"
  shows "unat (curr_ptr q + 1) = Suc (unat (curr_ptr q))"
    and "GetNext q = Inr (resource q ! (Suc (unat (curr_ptr q)) mod length (space q)),
                          q\<lparr>curr_ptr := next_cursor q\<rparr>)"
    and "unat (next_cursor q) \<le> max (unat kMaxDigit) (length (space q) - 1)"
proof -
  have n: "unat (size_of (space q)) = length (space q)"
    using assms(2) by (rule size_of_unat)
  have nz: "size_of (space q) \<noteq> 0"
    using n assms(1) by (metis less_numeral_extra(3) unat_0)
  have "unat (curr_ptr q) < 2 ^ 64 - 1"
    using assms(2,4) by (simp add: kMaxDigit_unat max_def split: if_splits)
  then show inc: "unat (curr_ptr q + 1) = Suc (unat (curr_ptr q))"
    by (simp add: unat_word_ariths)
  have idx: "unat ((curr_ptr q + 1) mod size_of (space q)) =
      Suc (unat (curr_ptr q)) mod length (space q)"
    by (simp add: unat_mod n inc)
  have "Suc (unat (curr_ptr q)) mod length (space q) < length (resource q)"
    using assms(1,3) by simp
  then show "GetNext q = Inr (resource q ! (Suc (unat (curr_ptr q)) mod length (space q)),
                          q\<lparr>curr_ptr := next_cursor q\<rparr>)"
    using nz idx by (simp add: GetNext_def Let_def next_cursor_def)
  show "unat (next_cursor q) \<le> max (unat kMaxDigit) (length (space q) - 1)"
  proof (cases "kMaxDigit < curr_ptr q + 1")
    case True
    have "unat ((curr_ptr q + 1 + 1) mod size_of (space q)) < length (space q)"
      using assms(1) by (simp add: unat_mod n)
    then show ?thesis using True by (simp add: next_cursor_def)
  next
    case False
    then have "unat (curr_ptr q + 1) \<le> unat kMaxDigit"
      by (simp add: word_less_nat_alt)
    then show ?thesis using False by (simp add: next_cursor_def)
  qed
qed

lemma GetNext_seq_inv:
  assumes "0 < length (space p)" "length (space p) < 2 ^ 64"
    "length (resource p) = length (space p)"
  shows "cursor_inv p q \<Longrightarrow> \<exists>rs q1. GetNext_seq j q = Inr (rs, q1) \<and> cursor_inv p q1"
proof (induction j arbitrary: q)
  case 0
  then show ?case by simp
next
  case (Suc j)
  have q: "0 < length (space q)" "length (space q) < 2 ^ 64"
    "length (resource q) = length (space q)"
    "unat (curr_ptr q) \<le> max (unat kMaxDigit) (length (space q) - 1)"
    using Suc.prems assms by (simp_all add: cursor_inv_def)
  note st = GetNext_step [OF q]
  have "cursor_inv p (q\<lparr>curr_ptr := next_cursor q\<rparr>)"
    using st(3) Suc.prems by (simp add: cursor_inv_def)
  then obtain rs q1 where "GetNext_seq j (q\<lparr>curr_ptr := next_cursor q\<rparr>) = Inr (rs, q1)"
    "cursor_inv p q1"
    using Suc.IH by blast
  then show ?case using st(2) by simp
qed

text \<open>
  Claim C7.  In a pool built by the constructor with \<open>N \<ge> 1\<close> buffers, after any number
  \<open>j\<close> of calls in a row the next call of \<open>GetNext\<close> returns: the slot index
  \<open>ptr mod N\<close> of the incremented cursor \<open>ptr\<close> is an index of \<open>resource\<close> and the
  handle returned is that slot; the increment does not wrap; the cursor stored by the
  call is \<open>(ptr + 1) mod N\<close> when \<open>ptr\<close> is above \<open>kMaxDigit\<close> and \<open>ptr\<close> otherwise;
  and the stored cursor is at most the larger of \<open>kMaxDigit\<close> and \<open>N\<close>.
\<close>

theorem GetNext_cursor_invariant:
  assumes "ResourceTempSpace_new c ncopy w = (p, w1)" and "1 \<le> unat ncopy"
  shows "\<exists>rs q r q1.
           GetNext_seq j p = Inr (rs, q) \<and> GetNext q = Inr (r, q1) \<and>
           r = resource p ! (unat (curr_ptr q + 1) mod unat ncopy) \<and>
           unat (curr_ptr q + 1) mod unat ncopy < length (resource p) \<and>
           unat (curr_ptr q + 1) = Suc (unat (curr_ptr q)) \<and>
           curr_ptr q1 =
             (if kMaxDigit < curr_ptr q + 1 then (curr_ptr q + 1 + 1) mod ncopy
              else curr_ptr q + 1) \<and>
           unat (curr_ptr q1) \<le> max (unat kMaxDigit) (unat ncopy)"
proof -
  note props = ResourceTempSpace_new_props [OF assms(1)]
  have wf: "0 < length (space p)" "length (space p) < 2 ^ 64"
    "length (resource p) = length (space p)"
    using props(1,2) assms(2) unat_size_t_bound [of ncopy] by simp_all
  have "cursor_inv p p"
    using props(3) by (simp add: cursor_inv_def)
  then obtain rs q where seq: "GetNext_seq j p = Inr (rs, q)" and inv: "cursor_inv p q"
    using GetNext_seq_inv [OF wf] by blast
  have q: "0 < length (space q)" "length (space q) < 2 ^ 64"
    "length (resource q) = length (space q)"
    "unat (curr_ptr q) \<le> max (unat kMaxDigit) (length (space q) - 1)"
    using inv wf by (simp_all add: cursor_inv_def)
  note st = GetNext_step [OF q]
  have sz: "size_of (space q) = ncopy"
    using inv props(1) by (simp add: cursor_inv_def size_of_def)
  have len: "length (space q) = unat ncopy" "resource q = resource p"
    using inv props(1) by (simp_all add: cursor_inv_def)
  have nc: "curr_ptr (q\<lparr>curr_ptr := next_cursor q\<rparr>) =
      (if kMaxDigit < curr_ptr q + 1 then (curr_ptr q + 1 + 1) mod ncopy else curr_ptr q + 1)"
    by (simp add: next_cursor_def sz)
  have bound: "unat (curr_ptr (q\<lparr>curr_ptr := next_cursor q\<rparr>)) \<le> max (unat kMaxDigit) (unat ncopy)"
    using st(3) len(1) by (simp add: le_max_iff_disj) linarith
  have idx: "unat (curr_ptr q + 1) mod unat ncopy < length (resource p)"
    using assms(2) props(2) by simp
  have r: "resource q ! (Suc (unat (curr_ptr q)) mod length (space q)) =
      resource p ! (unat (curr_ptr q + 1) mod unat ncopy)"
    using st(1) len by simp
  show ?thesis
    using seq st(1) st(2) r idx nc bound by metis
qed

theorem GetNext_cursor_invariant_witness:
  "1 \<le> unat (4 :: size_t) \<and>
   (\<exists>rs q r q1.
      GetNext_seq 3 (fst (ResourceTempSpace_new Context_CPU 4 (world (process_start Map.empty))))
        = Inr (rs, q) \<and>
      GetNext q = Inr (r, q1) \<and>
      r = resource (fst (ResourceTempSpace_new Context_CPU 4 (world (process_start Map.empty)))) !
            (unat (curr_ptr q + 1) mod unat (4 :: size_t)) \<and>
      unat (curr_ptr q + 1) mod unat (4 :: size_t) <
        length (resource (fst (ResourceTempSpace_new Context_CPU 4
           (world (process_start Map.empty))))) \<and>
      unat (curr_ptr q + 1) = Suc (unat (curr_ptr q)) \<and>
      curr_ptr q1 =
        (if kMaxDigit < curr_ptr q + 1 then (curr_ptr q + 1 + 1) mod 4 else curr_ptr q + 1) \<and>
      unat (curr_ptr q1) \<le> max (unat kMaxDigit) (unat (4 :: size_t)))"
proof -
  let ?w = "world (process_start Map.empty)"
  have h1: "ResourceTempSpace_new Context_CPU 4 ?w =
      (fst (ResourceTempSpace_new Context_CPU 4 ?w), snd (ResourceTempSpace_new Context_CPU 4 ?w))"
    by simp
  have h2: "1 \<le> unat (4 :: size_t)" by simp
  show ?thesis
    using GetNext_cursor_invariant [OF h1 h2, of 3] h2 by blast
qed

subsection \<open>The lifecycle of the singleton\<close>

lemma Get_when_shut_down:
  "instance_ptr s = None \<Longrightarrow> rm_shutdown s \<Longrightarrow> Get s = Inl (LogFatal AlreadyShutdone)"
  by (simp add: Get_def)

lemma Shutdown_live:
  "instance_ptr s = Some m \<Longrightarrow>
     instance_ptr (Shutdown cuda s) = None \<and> rm_shutdown (Shutdown cuda s)"
  by (simp add: Shutdown_def)

lemma Shutdown_no_instance: "instance_ptr s = None \<Longrightarrow> Shutdown cuda s = s"
  by (simp add: Shutdown_def)

lemma exec_after_shutdown:
  assumes "instance_ptr s = None" "rm_shutdown s" "exec cuda c s = Inr (rs, s1)"
  shows "s1 = s"
  using assms by (cases c) (simp_all add: Get_when_shut_down Shutdown_no_instance)

lemma run_after_shutdown:
  assumes "instance_ptr s = None" "rm_shutdown s" "run cuda cs s = Inr (rs, s1)"
  shows "s1 = s"
  using assms
proof (induction cs arbitrary: rs)
  case Nil
  then show ?case by simp
next
  case (Cons c cs)
  obtain r1 s2 where e: "exec cuda c s = Inr (r1, s2)"
    using Cons.prems(3) by (auto split: sum.splits)
  have s2: "s2 = s"
    using Cons.prems(1,2) e by (rule exec_after_shutdown)
  obtain r2 where "run cuda cs s = Inr (r2, s1)"
    using Cons.prems(3) e s2 by (auto split: sum.splits)
  then show ?case
    using Cons.IH Cons.prems(1,2) by blast
qed

text \<open>
  Claim C2, amended.  Once \<open>Shutdown()\<close> has been called while an instance existed,
  every later \<open>Get()\<close> is fatal: whatever calls follow the \<open>Shutdown()\<close>, in any state
  they return to, \<open>Get()\<close> ends with the diagnostic "Resource manager already shutdone".
\<close>

theorem Get_after_Shutdown_fatal:
  assumes "instance_ptr s = Some m" and "run cuda (CallShutdown # cs) s = Inr (rs, s1)"
  shows "Get s1 = Inl (LogFatal AlreadyShutdone)"
proof -
  obtain r2 where r: "run cuda cs (Shutdown cuda s) = Inr (r2, s1)"
    using assms(2) by (auto split: sum.splits)
  note sh = Shutdown_live [OF assms(1), of cuda]
  have "s1 = Shutdown cuda s"
    using sh r run_after_shutdown by blast
  then show ?thesis
    using sh by (simp add: Get_when_shut_down)
qed

lemma start_Get:
  "\<exists>m w. Get (process_start env) = Inr ((process_start env)\<lparr>instance_ptr := Some m, world := w\<rparr>)"
proof -
  obtain m w where "ResourceManagerImpl_new (world (process_start env)) = (m, w)"
    by (cases "ResourceManagerImpl_new (world (process_start env))")
  then show ?thesis
    using Get_start by blast
qed

theorem Get_after_Shutdown_fatal_witness:
  "instance_ptr (projr (Get (process_start Map.empty))) =
     Some (the (instance_ptr (projr (Get (process_start Map.empty))))) \<and>
   run False (CallShutdown # [CallShutdown]) (projr (Get (process_start Map.empty))) =
     Inr ([], Shutdown False (projr (Get (process_start Map.empty)))) \<and>
   Get (Shutdown False (projr (Get (process_start Map.empty)))) = Inl (LogFatal AlreadyShutdone)"
proof -
  let ?s = "projr (Get (process_start Map.empty))"
  obtain m w where g: "Get (process_start Map.empty) =
      Inr ((process_start Map.empty)\<lparr>instance_ptr := Some m, world := w\<rparr>)"
    using start_Get by blast
  have h1: "instance_ptr ?s = Some (the (instance_ptr ?s))"
    using g by simp
  have h2: "run False (CallShutdown # [CallShutdown]) ?s = Inr ([], Shutdown False ?s)"
    using g by (simp add: Shutdown_def)
  show ?thesis
    using Get_after_Shutdown_fatal [OF h1 h2] h1 h2 by simp
qed

theorem Get_after_Shutdown_counterexample:
  "\<not> isl (run False [CallShutdown, CallGet] (process_start Map.empty)) \<and>
   instance_ptr (snd (projr (run False [CallShutdown, CallGet] (process_start Map.empty)))) \<noteq> None"
proof -
  obtain m w where g: "Get (process_start Map.empty) =
      Inr ((process_start Map.empty)\<lparr>instance_ptr := Some m, world := w\<rparr>)"
    using start_Get by blast
  have "Shutdown False (process_start Map.empty) = process_start Map.empty"
    by (simp add: Shutdown_def process_start_def)
  then show ?thesis
    using g by simp
qed

text \<open>
  Claim C3, amended.  A second \<open>Shutdown()\<close> with no \<open>Get()\<close> in between is not an
  error: it returns, and it leaves the process as the first \<open>Shutdown()\<close> left it.
\<close>

theorem Shutdown_twice:
  "exec cuda CallShutdown (Shutdown cuda s) = Inr ([], Shutdown cuda s)"
  by (cases "instance_ptr s") (simp_all add: Shutdown_def)

theorem Shutdown_twice_counterexample:
  "\<not> isl (run False [CallGet, CallShutdown, CallShutdown] (process_start Map.empty))"
proof -
  obtain m w where g: "Get (process_start Map.empty) =
      Inr ((process_start Map.empty)\<lparr>instance_ptr := Some m, world := w\<rparr>)"
    using start_Get by blast
  show ?thesis
    using g by simp
qed

subsection \<open>The paths through \<open>Request\<close>\<close>

text \<open>
  Claim C4.  A request on a host context for a kind other than \<open>kRandom\<close> and
  \<open>kTempSpace\<close>, and a request on a context that is not a host context in a build
  without accelerator support, do not return: \<open>Request\<close> ends in \<open>LOG(FATAL)\<close> (or in
  the failed \<open>CHECK_EQ\<close> when the device class is not the accelerator's either), and
  yields neither a handle nor an error value.
\<close>

theorem Request_fatal:
  assumes "(dev_mask c = cpu_kDevMask \<and> type rq \<noteq> kRandom \<and> type rq \<noteq> kTempSpace) \<or>
           (dev_mask c \<noteq> cpu_kDevMask \<and> \<not> cuda)"
  shows "Request cuda c rq m w =
           Inl (LogFatal
             (if dev_mask c = cpu_kDevMask then UnknownSupportedType (type rq)
              else if dev_mask c = gpu_kDevMask then GpuNotEnabled
              else CheckEqFailed (dev_mask c) gpu_kDevMask))"
  using assms by (auto simp: Request_def Request_switch_def)

theorem Request_fatal_witness:
  "dev_mask Context_CPU = cpu_kDevMask \<and> type \<lparr>type = 7\<rparr> \<noteq> kRandom \<and>
   type \<lparr>type = 7\<rparr> \<noteq> kTempSpace \<and>
   Request False Context_CPU \<lparr>type = 7\<rparr>
       (fst (ResourceManagerImpl_new (world (process_start Map.empty))))
       (snd (ResourceManagerImpl_new (world (process_start Map.empty)))) =
     Inl (LogFatal (UnknownSupportedType 7)) \<and>
   dev_mask \<lparr>dev_mask = gpu_kDevMask, dev_id = 0\<rparr> \<noteq> cpu_kDevMask \<and>
   Request False \<lparr>dev_mask = gpu_kDevMask, dev_id = 0\<rparr> \<lparr>type = kRandom\<rparr>
       (fst (ResourceManagerImpl_new (world (process_start Map.empty))))
       (snd (ResourceManagerImpl_new (world (process_start Map.empty)))) =
     Inl (LogFatal GpuNotEnabled)"
proof -
  have h1: "dev_mask Context_CPU = cpu_kDevMask \<and> type \<lparr>type = 7\<rparr> \<noteq> kRandom \<and>
      type \<lparr>type = 7\<rparr> \<noteq> kTempSpace"
    by (simp add: Context_CPU_def kRandom_def kTempSpace_def)
  have h2: "dev_mask \<lparr>dev_mask = gpu_kDevMask, dev_id = 0\<rparr> \<noteq> cpu_kDevMask \<and> \<not> False"
    by (simp add: masks_distinct)
  show ?thesis
    using Request_fatal [where c = Context_CPU and rq = "\<lparr>type = 7\<rparr>" and cuda = False,
        OF disjI1, OF h1]
      Request_fatal [where c = "\<lparr>dev_mask = gpu_kDevMask, dev_id = 0\<rparr>" and
        rq = "\<lparr>type = kRandom\<rparr>" and cuda = False, OF disjI2, OF h2]
      h1 h2
    by simp
qed


lemma GetNext_returns:
  assumes "0 < length (space p)" "length (space p) < 2 ^ 64"
    "length (resource p) = length (space p)"
  shows "\<exists>r q. GetNext p = Inr (r, q)"
proof -
  have n: "unat (size_of (space p)) = length (space p)"
    using assms(2) by (rule size_of_unat)
  have nz: "size_of (space p) \<noteq> 0"
    using n assms(1) by (metis less_numeral_extra(3) unat_0)
  have "unat ((curr_ptr p + 1) mod size_of (space p)) < length (resource p)"
    using assms(1,3) by (simp add: unat_mod n)
  then show ?thesis
    using nz by (simp add: GetNext_def Let_def)
qed




lemma Request_cpu_Random:
  assumes "dev_mask c = cpu_kDevMask" "type rq = kRandom"
  shows "Request cuda c rq m w = Inr (ResourceRandom.resource (cpu_rand' m), m, w)"
  using assms by (simp add: Request_def Request_switch_def)

lemma ResourceManagerImpl_new_pool:
  assumes "ResourceManagerImpl_new w = (m, w1)"
  shows "length (space (cpu_space' m)) = unat (scast (GetEnv w ''MXNET_CPU_TEMP_COPY'' 16) :: size_t)"
    and "length (resource (cpu_space' m)) = length (space (cpu_space' m))"
    and "length (space (cpu_space' m)) < 2 ^ 64"
proof -
  obtain w2 w3 where p: "ResourceTempSpace_new Context_CPU
      (scast (GetEnv w ''MXNET_CPU_TEMP_COPY'' 16)) w2 = (cpu_space' m, w3)"
    using ResourceManagerImpl_new_cpu_space [OF assms] by blast
  note props = ResourceTempSpace_new_props [OF p]
  show "length (space (cpu_space' m)) = unat (scast (GetEnv w ''MXNET_CPU_TEMP_COPY'' 16) :: size_t)"
    by (rule props(1))
  show "length (resource (cpu_space' m)) = length (space (cpu_space' m))"
    using props(1,2) by simp
  show "length (space (cpu_space' m)) < 2 ^ 64"
    using props(1) unat_size_t_bound [of "scast (GetEnv w ''MXNET_CPU_TEMP_COPY'' 16)"] by simp
qed

subsection \<open>The handle of the host generator\<close>

lemma Request_keeps_cpu_rand:
  assumes "Request cuda c rq m w = Inr (r, m1, w1)"
  shows "cpu_rand' m1 = cpu_rand' m"
  using assms
  by (auto simp: Request_def Request_switch_def split: if_splits sum.splits prod.splits)

lemma SeedRandom_keeps_cpu_rand:
  assumes "SeedRandom cuda seed m w = (m1, w1)"
  shows "cpu_rand' m1 = cpu_rand' m"
  using assms by (auto simp: SeedRandom_def Let_def)

lemma exec_keeps_cpu_rand:
  assumes "instance_ptr s = Some m" "exec cuda c s = Inr (rs, s1)"
  shows "(instance_ptr s1 = None \<and> rm_shutdown s1) \<or>
         (\<exists>m1. instance_ptr s1 = Some m1 \<and> cpu_rand' m1 = cpu_rand' m)"
proof (cases c)
  case CallGet
  then show ?thesis using assms by (simp add: Get_live)
next
  case CallShutdown
  then show ?thesis using assms Shutdown_live [OF assms(1), of cuda] by auto
next
  case (CallRequest x y)
  then show ?thesis
    using assms Request_keeps_cpu_rand
    by (fastforce simp: Get_live split: sum.splits)
next
  case (CallSeedRandom seed)
  then show ?thesis
    using assms SeedRandom_keeps_cpu_rand
    by (fastforce simp: Get_live split: prod.splits)
qed

lemma run_keeps_cpu_rand:
  assumes "instance_ptr s = Some m" "run cuda cs s = Inr (rs, s1)" "instance_ptr s1 = Some m1"
  shows "cpu_rand' m1 = cpu_rand' m"
  using assms
proof (induction cs arbitrary: s m rs)
  case Nil
  then show ?case by simp
next
  case (Cons c cs)
  obtain r1 s2 where e: "exec cuda c s = Inr (r1, s2)"
    using Cons.prems(2) by (auto split: sum.splits)
  obtain r2 where r: "run cuda cs s2 = Inr (r2, s1)"
    using Cons.prems(2) e by (auto split: sum.splits)
  from exec_keeps_cpu_rand [OF Cons.prems(1) e]
  show ?case
  proof
    assume "instance_ptr s2 = None \<and> rm_shutdown s2"
    then have "s1 = s2" using r run_after_shutdown by blast
    then show ?thesis
      using \<open>instance_ptr s2 = None \<and> rm_shutdown s2\<close> Cons.prems(3) by simp
  next
    assume "\<exists>m2. instance_ptr s2 = Some m2 \<and> cpu_rand' m2 = cpu_rand' m"
    then obtain m2 where "instance_ptr s2 = Some m2" "cpu_rand' m2 = cpu_rand' m"
      by blast
    then show ?thesis
      using Cons.IH [OF _ r Cons.prems(3)] by simp
  qed
qed

text \<open>
  Claim C10.  \<open>Request\<close> on a host context for kind \<open>kRandom\<close> returns the handle
  stored in the host generator's pool and changes nothing: the manager and the rest of
  the process are returned as they were.  The handle is the same on every call: whatever
  calls are made in between, as long as the manager lives, a later such \<open>Request\<close>
  returns the same handle, with the same dependency token and the same pointer.
\<close>

theorem Request_cpu_Random_frame:
  assumes "dev_mask c = cpu_kDevMask" and "type rq = kRandom"
    and "instance_ptr s = Some m" and "run cuda cs s = Inr (rs, s1)"
    and "instance_ptr s1 = Some m1"
  shows "Request cuda c rq m (world s) =
           Inr (ResourceRandom.resource (cpu_rand' m), m, world s) \<and>
         Request cuda c rq m1 (world s1) =
           Inr (ResourceRandom.resource (cpu_rand' m), m1, world s1)"
  using Request_cpu_Random [OF assms(1,2)] run_keeps_cpu_rand [OF assms(3-5)] by simp

theorem Request_cpu_Random_frame_witness:
  "dev_mask Context_CPU = cpu_kDevMask \<and> type \<lparr>type = kRandom\<rparr> = kRandom \<and>
   \<not> isl (Get (process_start Map.empty)) \<and>
   \<not> isl (run False [CallSeedRandom 5, CallRequest Context_CPU \<lparr>type = kTempSpace\<rparr>]
            (projr (Get (process_start Map.empty)))) \<and>
   Request False Context_CPU \<lparr>type = kRandom\<rparr>
       (the (instance_ptr (projr (Get (process_start Map.empty)))))
       (world (projr (Get (process_start Map.empty)))) =
     Inr (ResourceRandom.resource
            (cpu_rand' (the (instance_ptr (projr (Get (process_start Map.empty)))))),
          the (instance_ptr (projr (Get (process_start Map.empty)))),
          world (projr (Get (process_start Map.empty)))) \<and>
   fst (projr (Request False Context_CPU \<lparr>type = kRandom\<rparr>
       (the (instance_ptr (snd (projr
          (run False [CallSeedRandom 5, CallRequest Context_CPU \<lparr>type = kTempSpace\<rparr>]
             (projr (Get (process_start Map.empty))))))))
       (world (snd (projr
          (run False [CallSeedRandom 5, CallRequest Context_CPU \<lparr>type = kTempSpace\<rparr>]
             (projr (Get (process_start Map.empty))))))))) =
     ResourceRandom.resource
       (cpu_rand' (the (instance_ptr (projr (Get (process_start Map.empty))))))"
proof -
  let ?s = "projr (Get (process_start Map.empty))"
  let ?cs = "[CallSeedRandom 5, CallRequest Context_CPU \<lparr>type = kTempSpace\<rparr>]"
  obtain m w where g: "Get (process_start Map.empty) =
      Inr ((process_start Map.empty)\<lparr>instance_ptr := Some m, world := w\<rparr>)"
    using start_Get by blast
  have s: "?s = (process_start Map.empty)\<lparr>instance_ptr := Some m, world := w\<rparr>"
    using g by simp
  have nw: "ResourceManagerImpl_new (world (process_start Map.empty)) = (m, w)"
    using g by (simp add: Get_def process_start_def split: prod.splits)
  have e: "GetEnv (world (process_start Map.empty)) ''MXNET_CPU_TEMP_COPY'' 16 = 16"
    by (simp add: GetEnv_def process_start_def)
  note pool = ResourceManagerImpl_new_pool [OF nw]
  have len: "0 < length (space (cpu_space' m))"
    using pool(1) by (simp add: e)
  obtain m2 w2 where sr: "SeedRandom False 5 m w = (m2, w2)"
    by (cases "SeedRandom False 5 m w")
  have sp: "cpu_space' m2 = cpu_space' m"
    using sr by (auto simp: SeedRandom_def Let_def)
  obtain r q where gn: "GetNext (cpu_space' m2) = Inr (r, q)"
    using GetNext_returns [of "cpu_space' m"] len pool(2,3) sp by auto
  have h1: "dev_mask Context_CPU = cpu_kDevMask" by (simp add: Context_CPU_def)
  have h3: "instance_ptr ?s = Some m" using s by simp
  have h4: "run False ?cs ?s =
      Inr ([r], ?s\<lparr>instance_ptr := Some (m2\<lparr>cpu_space' := q\<rparr>), world := w2\<rparr>)"
    using s sr gn h1 by (simp add: Get_def Request_cpu_TempSpace)
  have h5: "instance_ptr (?s\<lparr>instance_ptr := Some (m2\<lparr>cpu_space' := q\<rparr>), world := w2\<rparr>) =
      Some (m2\<lparr>cpu_space' := q\<rparr>)"
    by simp
  note t = Request_cpu_Random_frame [OF h1 _ h3 h4 h5, of "\<lparr>type = kRandom\<rparr>"]
  show ?thesis
    using t h1 h3 h4 g by simp
qed

subsection \<open>Seeding\<close>

lemma Seed_heap:
  "Seed p g w =
     w\<lparr>heap := (heap w)(prnd p \<mapsto> Random (dev_id (ResourceRandom.ctx p) + g * kRandMagic) 0)\<rparr>"
  by (simp add: Seed_def PushSync_def Random_Seed_def Let_def)

lemma ResourceRandom_new_heap:
  assumes "ResourceRandom_new c g w = (p, w1)"
  shows "heap w1 (prnd p) = Some (Random (dev_id c + g * kRandMagic) 0)"
    and "ResourceRandom.ctx p = c" and "ptr' (ResourceRandom.resource p) = prnd p"
  using assms
  by (auto simp: ResourceRandom_new_def NewVariable_def new_def Let_def)

text \<open>
  Claim C5.  The seed given to a generator is \<open>dev_id + global_seed * kRandMagic\<close> in
  32-bit unsigned arithmetic, with \<open>kRandMagic = 127\<close>: this is the seed of the
  generator that the constructor creates and of the generator after \<open>Seed\<close>, whatever
  its state was before, so it is a function of the device index and the global seed
  alone.  For two pools whose device indices differ, seeding both with the same global
  seed leaves their generators with different seeds.
\<close>

theorem Seed_distinct_devices:
  "kRandMagic = 127 \<and> kRandMagic \<noteq> 0 \<and>
   heap (Seed p g w) (prnd p) =
     Some (Random (dev_id (ResourceRandom.ctx p) + g * kRandMagic) 0) \<and>
   (ResourceRandom_new c g w = (p1, w1) \<longrightarrow>
      heap w1 (prnd p1) = Some (Random (dev_id c + g * kRandMagic) 0)) \<and>
   (dev_id (ResourceRandom.ctx p) \<noteq> dev_id (ResourceRandom.ctx p2) \<longrightarrow>
      dev_id (ResourceRandom.ctx p) + g * kRandMagic \<noteq>
        dev_id (ResourceRandom.ctx p2) + g * kRandMagic \<and>
      heap (Seed p g w) (prnd p) \<noteq> heap (Seed p2 g w2) (prnd p2))"
  using ResourceRandom_new_heap(1) [of c g w p1 w1]
  by (simp add: Seed_heap kRandMagic_def)

theorem Seed_distinct_devices_witness:
  "ResourceRandom_new Context_CPU 5 (world (process_start Map.empty)) =
     (fst (ResourceRandom_new Context_CPU 5 (world (process_start Map.empty))),
      snd (ResourceRandom_new Context_CPU 5 (world (process_start Map.empty)))) \<and>
   heap (snd (ResourceRandom_new Context_CPU 5 (world (process_start Map.empty))))
     (prnd (fst (ResourceRandom_new Context_CPU 5 (world (process_start Map.empty))))) =
     Some (Random 635 0) \<and>
   dev_id (ResourceRandom.ctx (fst (ResourceRandom_new \<lparr>dev_mask = gpu_kDevMask, dev_id = 0\<rparr> 0
       (world (process_start Map.empty))))) \<noteq>
   dev_id (ResourceRandom.ctx (fst (ResourceRandom_new \<lparr>dev_mask = gpu_kDevMask, dev_id = 1\<rparr> 0
       (world (process_start Map.empty))))) \<and>
   heap (Seed (fst (ResourceRandom_new \<lparr>dev_mask = gpu_kDevMask, dev_id = 0\<rparr> 0
                 (world (process_start Map.empty)))) 5 (world (process_start Map.empty)))
     (prnd (fst (ResourceRandom_new \<lparr>dev_mask = gpu_kDevMask, dev_id = 0\<rparr> 0
                 (world (process_start Map.empty))))) =
     Some (Random 635 0) \<and>
   heap (Seed (fst (ResourceRandom_new \<lparr>dev_mask = gpu_kDevMask, dev_id = 1\<rparr> 0
                 (world (process_start Map.empty)))) 5 (world (process_start Map.empty)))
     (prnd (fst (ResourceRandom_new \<lparr>dev_mask = gpu_kDevMask, dev_id = 1\<rparr> 0
                 (world (process_start Map.empty))))) =
     Some (Random 636 0) \<and>
   heap (Seed (fst (ResourceRandom_new \<lparr>dev_mask = gpu_kDevMask, dev_id = 0\<rparr> 0
                 (world (process_start Map.empty)))) 5 (world (process_start Map.empty)))
     (prnd (fst (ResourceRandom_new \<lparr>dev_mask = gpu_kDevMask, dev_id = 0\<rparr> 0
                 (world (process_start Map.empty))))) \<noteq>
   heap (Seed (fst (ResourceRandom_new \<lparr>dev_mask = gpu_kDevMask, dev_id = 1\<rparr> 0
                 (world (process_start Map.empty)))) 5 (world (process_start Map.empty)))
     (prnd (fst (ResourceRandom_new \<lparr>dev_mask = gpu_kDevMask, dev_id = 1\<rparr> 0
                 (world (process_start Map.empty)))))"
proof -
  let ?w = "world (process_start Map.empty)"
  let ?c0 = "\<lparr>dev_mask = gpu_kDevMask, dev_id = 0\<rparr>"
  let ?c1 = "\<lparr>dev_mask = gpu_kDevMask, dev_id = 1\<rparr>"
  let ?p = "fst (ResourceRandom_new ?c0 0 ?w)"
  let ?p2 = "fst (ResourceRandom_new ?c1 0 ?w)"
  have c0: "ResourceRandom.ctx ?p = ?c0"
    by (rule ResourceRandom_new_heap(2) [of ?c0 0 ?w _ "snd (ResourceRandom_new ?c0 0 ?w)"]) simp
  have c1: "ResourceRandom.ctx ?p2 = ?c1"
    by (rule ResourceRandom_new_heap(2) [of ?c1 0 ?w _ "snd (ResourceRandom_new ?c1 0 ?w)"]) simp
  have d: "dev_id (ResourceRandom.ctx ?p) \<noteq> dev_id (ResourceRandom.ctx ?p2)"
    by (simp add: c0 c1)
  note t = Seed_distinct_devices [where p = ?p and ?p2.0 = ?p2 and g = 5 and w = ?w and ?w2.0 = ?w
      and c = Context_CPU and ?p1.0 = "fst (ResourceRandom_new Context_CPU 5 ?w)"
      and ?w1.0 = "snd (ResourceRandom_new Context_CPU 5 ?w)"]
  note t2 = Seed_distinct_devices [where p = ?p2 and g = 5 and w = ?w]
  have "heap (Seed ?p 5 ?w) (prnd ?p) = Some (Random 635 0)"
    using t by (simp add: c0 kRandMagic_def)
  moreover have "heap (Seed ?p2 5 ?w) (prnd ?p2) = Some (Random 636 0)"
    using t2 by (simp add: c1 kRandMagic_def)
  moreover have "heap (snd (ResourceRandom_new Context_CPU 5 ?w))
     (prnd (fst (ResourceRandom_new Context_CPU 5 ?w))) = Some (Random 635 0)"
    using t by (simp add: Context_CPU_def kRandMagic_def)
  ultimately show ?thesis
    using d by simp
qed

subsection \<open>Reseeding twice\<close>

lemma ForEach_Seed:
  "ForEach (\<lambda>i p. Seed p seed) arr w =
     w\<lparr>heap := heap w ++
        map_of (rev (map (\<lambda>(i, p).
          (prnd p, Random (dev_id (ResourceRandom.ctx p) + seed * kRandMagic) 0)) arr))\<rparr>"
proof (induction arr arbitrary: w)
  case Nil
  then show ?case by (simp add: ForEach_def)
next
  case (Cons x arr)
  obtain i p where x: "x = (i, p)" by (cases x)
  let ?g = "\<lambda>(i, p). (prnd p, Random (dev_id (ResourceRandom.ctx p) + seed * kRandMagic) 0)"
  have h: "(heap w)(prnd p \<mapsto> Random (dev_id (ResourceRandom.ctx p) + seed * kRandMagic) 0) ++
        map_of (rev (map ?g arr)) =
      heap w ++ map_of (rev (map ?g (x # arr)))"
    by (rule ext) (simp add: x map_add_def split: option.splits)
  have "ForEach (\<lambda>i p. Seed p seed) (x # arr) w = ForEach (\<lambda>i p. Seed p seed) arr (Seed p seed w)"
    by (simp add: ForEach_def x)
  also have "\<dots> = (Seed p seed w)\<lparr>heap := heap (Seed p seed w) ++ map_of (rev (map ?g arr))\<rparr>"
    by (rule Cons.IH)
  also have "\<dots> = w\<lparr>heap := heap w ++ map_of (rev (map ?g (x # arr)))\<rparr>"
    unfolding h [symmetric] by (simp add: Seed_heap)
  finally show ?case .
qed

lemma reseed_heap:
  "(((h(a \<mapsto> v)) ++ M)(a \<mapsto> v)) ++ M = (h(a \<mapsto> v)) ++ M"
  by (rule ext) (simp add: map_add_def split: option.splits)

lemma SeedRandom_eq:
  "SeedRandom cuda seed m w =
     (m\<lparr>global_seed' := seed\<rparr>,
      if cuda
      then w\<lparr>heap := (heap w)(prnd (cpu_rand' m) \<mapsto>
                  Random (dev_id (ResourceRandom.ctx (cpu_rand' m)) + seed * kRandMagic) 0) ++
                map_of (rev (map (\<lambda>(i, p).
                  (prnd p, Random (dev_id (ResourceRandom.ctx p) + seed * kRandMagic) 0))
                  (gpu_rand' m)))\<rparr>
      else w\<lparr>heap := (heap w)(prnd (cpu_rand' m) \<mapsto>
                  Random (dev_id (ResourceRandom.ctx (cpu_rand' m)) + seed * kRandMagic) 0)\<rparr>)"
  by (simp add: SeedRandom_def Let_def ForEach_Seed Seed_heap)

lemma SeedRandom_twice:
  "(case SeedRandom cuda seed m w of (m1, w1) \<Rightarrow> SeedRandom cuda seed m1 w1) =
     SeedRandom cuda seed m w"
  by (simp add: SeedRandom_eq reseed_heap)

lemma Get_instance: "Get s = Inr s1 \<Longrightarrow> \<exists>m. instance_ptr s1 = Some m"
  by (auto simp: Get_def split: option.splits if_splits prod.splits)

lemma Get_Get: "Get s = Inr s1 \<Longrightarrow> Get s1 = Inr s1"
  using Get_instance Get_live by blast

text \<open>
  Claim C6.  \<open>SeedRandom(s)\<close> is idempotent: a second \<open>SeedRandom(s)\<close> right after the
  first leaves the manager and the store, and so the global seed and the host generator,
  as the first call left them; the same holds for two calls through
  \<open>ResourceManager::Get()\<close>.  After the call the global seed is \<open>s\<close>, and in a build
  without accelerator support the host generator is at the start of the stream of the seed
  \<open>dev_id + s * kRandMagic\<close>.
\<close>

theorem SeedRandom_idempotent:
  "(case SeedRandom cuda seed m w of (m1, w1) \<Rightarrow> SeedRandom cuda seed m1 w1) =
     SeedRandom cuda seed m w \<and>
   run cuda [CallSeedRandom seed, CallSeedRandom seed] s = run cuda [CallSeedRandom seed] s \<and>
   global_seed' (fst (SeedRandom cuda seed m w)) = seed \<and>
   heap (snd (SeedRandom False seed m w)) (prnd (cpu_rand' m)) =
     Some (Random (dev_id (ResourceRandom.ctx (cpu_rand' m)) + seed * kRandMagic) 0)"
proof -
  have r: "run cuda [CallSeedRandom seed, CallSeedRandom seed] s = run cuda [CallSeedRandom seed] s"
  proof (cases "Get s")
    case (Inl e)
    then show ?thesis by simp
  next
    case (Inr s1)
    obtain m0 where m0: "instance_ptr s1 = Some m0"
      using Get_instance [OF Inr] by blast
    obtain m1 w1 where sr: "SeedRandom cuda seed m0 (world s1) = (m1, w1)"
      by (cases "SeedRandom cuda seed m0 (world s1)")
    have again: "SeedRandom cuda seed m1 w1 = (m1, w1)"
      using SeedRandom_twice [of cuda seed m0 "world s1"] sr by simp
    let ?s2 = "s1\<lparr>instance_ptr := Some m1, world := w1\<rparr>"
    have e1: "exec cuda (CallSeedRandom seed) s = Inr ([], ?s2)"
      using Inr m0 sr by simp
    have e2: "exec cuda (CallSeedRandom seed) ?s2 = Inr ([], ?s2)"
      using again by (simp add: Get_def)
    show ?thesis
      using e1 e2 by simp
  qed
  show ?thesis
    using SeedRandom_twice r by (simp add: SeedRandom_eq)
qed

subsection \<open>What \<open>Request\<close> returns in a running process\<close>








































end
